theory Spec2Isabelle
  imports Complex_Main
begin

section \<open>Shared values: integers, text, errors\<close>

text \<open>
  Python integers are unbounded and are modelled by \<^typ>\<open>int\<close>. Python floats
  (angles, coordinates, the radius) are modelled by exact rationals: the model follows the
  arithmetic of the source, not the rounding of binary floating point.

  \<^verbatim>\<open>range(n)\<close> is the list \<open>0, ..., n - 1\<close>, empty for \<open>n \<le> 0\<close>;
  \<^verbatim>\<open>range(a, b)\<close> is \<open>a, ..., b - 1\<close>, empty for \<open>b \<le> a\<close>.
\<close>

definition py_range :: "int \<Rightarrow> int list" where
  "py_range n = map int [0..<nat n]"

definition py_range2 :: "int \<Rightarrow> int \<Rightarrow> int list" where
  "py_range2 a b = map (\<lambda>k. a + int k) [0..<nat (b - a)]"

text \<open>\<^verbatim>\<open>xs * k\<close> on a list: \<open>k\<close> copies of \<open>xs\<close>, none for \<open>k \<le> 0\<close>.\<close>

definition list_mul :: "'a list \<Rightarrow> int \<Rightarrow> 'a list" where
  "list_mul xs k = concat (replicate (nat k) xs)"

text \<open>\<^verbatim>\<open>str(i)\<close> for an integer: decimal digits, with a leading minus sign.\<close>

definition digit_char :: "nat \<Rightarrow> char" where
  "digit_char d = ''0123456789'' ! d"

fun str_nat :: "nat \<Rightarrow> string" where
  "str_nat n = (if n < 10 then [digit_char n] else str_nat (n div 10) @ [digit_char (n mod 10)])"

declare str_nat.simps [simp del]

definition str_int :: "int \<Rightarrow> string" where
  "str_int i = (if i < 0 then CHR ''-'' # str_nat (nat (- i)) else str_nat (nat i))"

text \<open>\<^verbatim>\<open>sep.join(xs)\<close>.\<close>

fun join :: "string \<Rightarrow> string list \<Rightarrow> string" where
  "join sep [] = []"
| "join sep [x] = x"
| "join sep (x # y # ys) = x @ sep @ join sep (y # ys)"

text \<open>The backslash character of the LaTeX command names.\<close>

definition bs :: char where
  "bs = CHR 0x5C"

text \<open>
  \<^verbatim>\<open>utils.pitch_name_list\<close>: the twelve pitch names, with the LaTeX accidentals
  \<^verbatim>\<open>$\sharp$\<close> and \<^verbatim>\<open>$\flat$\<close>.
\<close>

definition pitch_name_list :: "string list" where
  "pitch_name_list =
     [''C'', ''C$'' @ bs # ''sharp$'', ''D'', ''E$'' @ bs # ''flat$'', ''E'', ''F'',
      ''F$'' @ bs # ''sharp$'', ''G'', ''A$'' @ bs # ''flat$'', ''A'',
      ''B$'' @ bs # ''flat$'', ''B'']"

text \<open>
  Every way a generator stops with an exception. The first three are the
  \<^verbatim>\<open>raise ValueError(...)\<close> statements of the source, carrying the values
  interpolated into the message; the others are raised by the interpreter:
  \<^verbatim>\<open>math.log2\<close> of a non-positive number, \<^verbatim>\<open>ks[-1]\<close> on an empty
  sequence, and a read of the loop variable \<^verbatim>\<open>i\<close> that no iteration assigned.
\<close>

datatype error =
    OutOfRangeIndex int int
  | InvalidLabelMode int
  | UnsortedTags
  | MathDomainError
  | IndexError
  | UnboundLocalError

text \<open>
  The text of the three messages written in the source; the interpreter's own messages
  are not modelled.
\<close>

fun message :: "error \<Rightarrow> string option" where
  "message (OutOfRangeIndex k n) =
     Some (''Highlighted index '' @ str_int k @ '' is greater than the total n ('' @ str_int n
           @ '').'')"
| "message (InvalidLabelMode n) =
     Some (''To use the pitch class labels, the cycle length (currently '' @ str_int n
           @ '') must be 12.'')"
| "message UnsortedTags = Some ''Tags must be in increasing order''"
| "message _ = None"

text \<open>
  A generation call ends with the exception raised, if any, and the content of the output
  file: \<open>None\<close> while \<^verbatim>\<open>open\<close> has not been reached, otherwise the writes made
  so far, in order (\<^verbatim>\<open>with open(...)\<close> closes the file when an exception passes
  through it, so what was written stays). Opening the file itself is taken to succeed.
\<close>

type_synonym 'l run = "error option \<times> 'l list option"

definition raised :: "'l run \<Rightarrow> error option" where
  "raised r = fst r"

definition written :: "'l run \<Rightarrow> 'l list option" where
  "written r = snd r"


section \<open>Cycle diagrams (\<^verbatim>\<open>cycles.py\<close>)\<close>

subsection \<open>Nodes\<close>

text \<open>
  One node string
  \<^verbatim>\<open>\node (n{i}) at +({angle}:{radius_string}) [circle, draw, fill={colour}, label = {label_position}:{label}]{};\<close>
  is represented by the six values interpolated into it.
\<close>

datatype colour = Black | White

datatype label_position = AtAngle rat | Above | RightOf | Below | LeftOf

datatype label = Count int | Fraction int int | PitchName string

record node =
  node_index :: int
  node_angle :: rat
  node_radius :: string
  node_fill :: colour
  node_label_position :: label_position
  node_label :: label

text \<open>\<^verbatim>\<open>x % m\<close> on floats: the result has the sign of \<open>m\<close>.\<close>

definition py_mod :: "rat \<Rightarrow> rat \<Rightarrow> rat" where
  "py_mod x m = x - m * of_int \<lfloor>x / m\<rfloor>"

text \<open>
  The body of the loop of \<^verbatim>\<open>node_strings\<close> for index \<open>i\<close>. The pitch name is
  read only after the check \<open>n = 12\<close>, so \<open>i\<close> is a valid index of the table.
\<close>

definition node_string ::
  "int list \<Rightarrow> int \<Rightarrow> bool \<Rightarrow> bool \<Rightarrow> bool \<Rightarrow> string \<Rightarrow> int \<Rightarrow> node" where
  "node_string ks n label_angles denominator_in_label tonality_not_count radius_string i =
     (let angle = py_mod (360 + 90 - (of_int i / of_int n) * 360) 360
      in \<lparr> node_index = i,
           node_angle = angle,
           node_radius = radius_string,
           node_fill = (if i \<in> set ks then Black else White),
           node_label_position =
             (if label_angles then AtAngle angle
              else if (of_int i / of_int n :: rat) = 0 then Above
              else if (of_int i / of_int n :: rat) < 1 / 2 then RightOf
              else if (of_int i / of_int n :: rat) = 1 / 2 then Below
              else LeftOf),
           node_label =
             (if tonality_not_count then PitchName (pitch_name_list ! nat i)
              else if denominator_in_label then Fraction i n
              else Count i) \<rparr>)"

definition node_strings ::
  "int list \<Rightarrow> int \<Rightarrow> bool \<Rightarrow> bool \<Rightarrow> bool \<Rightarrow> string \<Rightarrow> error + node list" where
  "node_strings ks n label_angles denominator_in_label tonality_not_count radius_string =
     (if tonality_not_count \<and> n \<noteq> 12 then Inl (InvalidLabelMode n)
      else Inr (map (node_string ks n label_angles denominator_in_label tonality_not_count
                       radius_string) (py_range n)))"

subsection \<open>The single cycle\<close>

text \<open>
  The writes of \<^verbatim>\<open>single_cycle_example\<close> and \<^verbatim>\<open>two_circles\<close>, one
  constructor for each \<^verbatim>\<open>f.write\<close>:
  \<^item> \<open>DocumentClass\<close>, \<open>UsePackage\<close>, \<open>UseTikzLibrary\<close>, \<open>BeginDocument\<close>: the preamble;
  \<^item> \<open>BeginPicture s\<close>: \<^verbatim>\<open>\begin{tikzpicture}[scale=...]\<close>;
  \<^item> \<open>DefRadius v r\<close>: \<^verbatim>\<open>\def v{r}\<close>; \<open>Origin\<close>: \<^verbatim>\<open>\node (origin) at (0,0) {};\<close>;
    \<open>Circle v\<close>: \<^verbatim>\<open>\draw (origin) circle (v);\<close>;
  \<^item> \<open>NodeLine nd\<close>: one node string;
  \<^item> \<open>Draw a b\<close>: \<^verbatim>\<open>\draw[solid] (n{a}) -- (n{b});\<close>;
  \<^item> \<open>EndPicture\<close>, \<open>EndDocument\<close>.
\<close>

datatype tex =
    DocumentClass | UsePackage | UseTikzLibrary | BeginDocument
  | BeginPicture int
  | DefRadius string rat
  | Origin
  | Circle string
  | NodeLine node
  | Draw int int
  | EndPicture
  | EndDocument

definition preamble :: "bool \<Rightarrow> tex list" where
  "preamble include_preamble =
     (if include_preamble then [DocumentClass, UsePackage, UseTikzLibrary, BeginDocument] else [])"

definition postamble :: "bool \<Rightarrow> tex list" where
  "postamble include_preamble = (if include_preamble then [EndDocument] else [])"

text \<open>
  The check of the highlighted indices: the first \<open>k\<close> with
  \<^verbatim>\<open>k not in range(n)\<close> raises.
\<close>

fun check_ks :: "int list \<Rightarrow> int \<Rightarrow> error option" where
  "check_ks [] n = None"
| "check_ks (k # ks) n =
     (if 0 \<le> k \<and> k < n then check_ks ks n else Some (OutOfRangeIndex k n))"

text \<open>
  \<^verbatim>\<open>int(math.log2(n) - 1)\<close>: \<^verbatim>\<open>math.log2\<close> raises for \<open>n \<le> 0\<close>; for
  \<open>n \<ge> 1\<close> the value \<open>log2 n - 1\<close> is \<open>-1\<close> or at least \<open>0\<close>, so truncation
  gives \<open>\<lfloor>log2 n\<rfloor> - 1\<close>.
\<close>

fun ilog2 :: "nat \<Rightarrow> nat" where
  "ilog2 n = (if n < 2 then 0 else Suc (ilog2 (n div 2)))"

declare ilog2.simps [simp del]

definition scale_of :: "int \<Rightarrow> error + int" where
  "scale_of n = (if n \<le> 0 then Inl MathDomainError else Inr (int (ilog2 (nat n)) - 1))"

text \<open>
  Adjacent mode: \<^verbatim>\<open>for i in range(len(ks) - 1)\<close> draws \<open>ks[i]\<close> to \<open>ks[i + 1]\<close>;
  then the last line is drawn from \<^verbatim>\<open>ks[-1]\<close> to the node \<^verbatim>\<open>n0\<close>.
\<close>

definition adjacent_lines :: "int list \<Rightarrow> tex list" where
  "adjacent_lines ks = map (\<lambda>i. Draw (ks ! i) (ks ! (i + 1))) [0..<length ks - 1]"

definition last_line :: "int list \<Rightarrow> error + tex" where
  "last_line ks = (if ks = [] then Inl IndexError else Inr (Draw (last ks) 0))"

text \<open>\<^verbatim>\<open>itertools.combinations(ks, 2)\<close>: the pairs of positions \<open>i < j\<close>, in order.\<close>

fun combinations2 :: "'a list \<Rightarrow> ('a \<times> 'a) list" where
  "combinations2 [] = []"
| "combinations2 (x # xs) = map (Pair x) xs @ combinations2 xs"

definition all_lines :: "int list \<Rightarrow> tex list" where
  "all_lines ks = map (\<lambda>p. Draw (fst p) (snd p)) (combinations2 ks)"

text \<open>
  The \<^verbatim>\<open>if lines:\<close> block: the lines written, and the exception that stops it.
\<close>

definition line_writes :: "int list \<Rightarrow> bool \<Rightarrow> bool \<Rightarrow> tex list \<times> error option" where
  "line_writes ks lines adjacent_not_all =
     (if lines then
        (if adjacent_not_all then
           (case last_line ks of
              Inl e \<Rightarrow> (adjacent_lines ks, Some e)
            | Inr l \<Rightarrow> (adjacent_lines ks @ [l], None))
         else (all_lines ks, None))
      else ([], None))"

text \<open>
  \<^verbatim>\<open>single_cycle_example(ks, n, radius, lines, adjacent_not_all, tonality_not_count,
  include_preamble)\<close>; \<open>ks = None\<close> stands for \<^verbatim>\<open>range(n)\<close>.
\<close>

definition radius_var :: string where
  "radius_var = bs # ''radius''"

definition single_cycle_example ::
  "int list option \<Rightarrow> int \<Rightarrow> rat \<Rightarrow> bool \<Rightarrow> bool \<Rightarrow> bool \<Rightarrow> bool \<Rightarrow> tex run" where
  "single_cycle_example ks_opt n radius lines adjacent_not_all tonality_not_count include_preamble =
     (case (case ks_opt of None \<Rightarrow> None | Some ks \<Rightarrow> check_ks ks n) of
        Some e \<Rightarrow> (Some e, None)
      | None \<Rightarrow>
          (let ks = (case ks_opt of None \<Rightarrow> py_range n | Some ks \<Rightarrow> ks);
               out0 = preamble include_preamble
           in case scale_of n of
                Inl e \<Rightarrow> (Some e, Some out0)
              | Inr scale \<Rightarrow>
                  (let out1 = out0 @ [BeginPicture scale, DefRadius radius_var radius, Origin,
                                      Circle radius_var]
                   in case node_strings ks n True False tonality_not_count radius_var of
                        Inl e \<Rightarrow> (Some e, Some out1)
                      | Inr nodes \<Rightarrow>
                          (let out2 = out1 @ map NodeLine nodes
                           in case line_writes ks lines adjacent_not_all of
                                (ls, Some e) \<Rightarrow> (Some e, Some (out2 @ ls))
                              | (ls, None) \<Rightarrow>
                                  (None, Some (out2 @ ls @ [EndPicture]
                                                 @ postamble include_preamble))))))"

text \<open>The straight segments of an output, in the order written.\<close>

fun segment :: "tex \<Rightarrow> (int \<times> int) list" where
  "segment (Draw a b) = [(a, b)]"
| "segment _ = []"

definition segments :: "tex run \<Rightarrow> (int \<times> int) list" where
  "segments r = (case written r of None \<Rightarrow> [] | Some ls \<Rightarrow> concat (map segment ls))"

text \<open>
  The lines that \<^verbatim>\<open>single_cycle_example\<close> writes before the nodes: the preamble, the
  start of the picture, and the circle.
\<close>

definition header :: "int \<Rightarrow> rat \<Rightarrow> bool \<Rightarrow> tex list" where
  "header n radius include_preamble =
     preamble include_preamble
     @ [BeginPicture (int (ilog2 (nat n)) - 1), DefRadius radius_var radius, Origin,
        Circle radius_var]"

subsection \<open>Two circles\<close>

text \<open>
  \<^verbatim>\<open>two_circles(inner_k, inner_n, inner_radius, outer_k, outer_n, outer_radius,
  include_preamble)\<close>: both index checks come first, then the file is written. The nodes
  are generated with the default labels, so \<^verbatim>\<open>node_strings\<close> cannot raise here.
\<close>

definition inner_var :: string where
  "inner_var = bs # ''innerradius''"

definition outer_var :: string where
  "outer_var = bs # ''outerradius''"

definition two_circles ::
  "int list option \<Rightarrow> int \<Rightarrow> rat \<Rightarrow> int list option \<Rightarrow> int \<Rightarrow> rat \<Rightarrow> bool \<Rightarrow> tex run" where
  "two_circles inner_k inner_n inner_radius outer_k outer_n outer_radius include_preamble =
     (case (case inner_k of None \<Rightarrow> None | Some ks \<Rightarrow> check_ks ks inner_n) of
        Some e \<Rightarrow> (Some e, None)
      | None \<Rightarrow>
          (case (case outer_k of None \<Rightarrow> None | Some ks \<Rightarrow> check_ks ks outer_n) of
             Some e \<Rightarrow> (Some e, None)
           | None \<Rightarrow>
               (let iks = (case inner_k of None \<Rightarrow> py_range inner_n | Some ks \<Rightarrow> ks);
                    oks = (case outer_k of None \<Rightarrow> py_range outer_n | Some ks \<Rightarrow> ks);
                    out0 = preamble include_preamble
                           @ [BeginPicture 2, DefRadius inner_var inner_radius, Origin,
                              Circle inner_var]
                in case node_strings iks inner_n True False False inner_var of
                     Inl e \<Rightarrow> (Some e, Some out0)
                   | Inr inodes \<Rightarrow>
                       (let out1 = out0 @ map NodeLine inodes
                                   @ [DefRadius outer_var outer_radius, Origin, Circle outer_var]
                        in case node_strings oks outer_n True False False outer_var of
                             Inl e \<Rightarrow> (Some e, Some out1)
                           | Inr onodes \<Rightarrow>
                               (None, Some (out1 @ map NodeLine onodes @ [EndPicture]
                                              @ postamble include_preamble))))))"


section \<open>The linear table and the grid (\<^verbatim>\<open>linear_table.py\<close>)\<close>

subsection \<open>MIDI numbers, pitch names, pitch classes\<close>

text \<open>
  The writes of \<^verbatim>\<open>midi_pitch_pc_table\<close>: the five lines of the preamble,
  \<open>BeginTabular ccs\<close> for \<^verbatim>\<open>\begin{tabular}{ccs}\<close>, \<open>RowLabel l\<close> for
  \<^verbatim>\<open>\textbf{l} \<close>, \<open>RowText r\<close> for a joined row and its newline, \<open>RowBreak\<close> for
  the line of two backslashes, and \<open>EndTabular\<close>.
\<close>

datatype table_tex =
    TDocumentClass | TBeginDocument | TBeginTable | TCentering | TCaption
  | BeginTabular string
  | RowLabel string
  | RowText string
  | RowBreak
  | EndTabular

text \<open>The end cell \<open>d\<close>: an ellipsis when open-ended, empty otherwise.\<close>

definition end_cell :: "bool \<Rightarrow> string list" where
  "end_cell open_ended = [if open_ended then bs # ''dots'' else []]"

definition midi_cells :: "int \<Rightarrow> int \<Rightarrow> bool \<Rightarrow> string list" where
  "midi_cells start_octave end_octave open_ended =
     end_cell open_ended
     @ map str_int (py_range2 (start_octave * 12) (end_octave * 12))
     @ end_cell open_ended"

definition pc_cells :: "int \<Rightarrow> int \<Rightarrow> bool \<Rightarrow> string list" where
  "pc_cells start_octave end_octave open_ended =
     end_cell open_ended
     @ map str_int (list_mul (py_range 12) (end_octave - start_octave))
     @ end_cell open_ended"

definition name_cells :: "int \<Rightarrow> int \<Rightarrow> bool \<Rightarrow> string list" where
  "name_cells start_octave end_octave open_ended =
     end_cell open_ended
     @ list_mul pitch_name_list (end_octave - start_octave)
     @ end_cell open_ended"

definition ccs :: "int \<Rightarrow> int \<Rightarrow> string" where
  "ccs start_octave end_octave =
     ''c'' @ list_mul ''|cccccccccccc'' (end_octave - start_octave) @ ''|c''"

definition midi_pitch_pc_table :: "int \<Rightarrow> int \<Rightarrow> bool \<Rightarrow> bool \<Rightarrow> table_tex run" where
  "midi_pitch_pc_table start_octave end_octave include_preamble open_ended =
     (let midis = join '' & '' (midi_cells start_octave end_octave open_ended);
          pcs = join '' & '' (pc_cells start_octave end_octave open_ended);
          names = join '' & '' (name_cells start_octave end_octave open_ended)
      in (None, Some (
            (if include_preamble
             then [TDocumentClass, TBeginDocument, TBeginTable, TCentering, TCaption] else [])
            @ [BeginTabular (ccs start_octave end_octave)]
            @ (if \<not> open_ended then [RowLabel ''MIDI''] else []) @ [RowText midis, RowBreak]
            @ (if \<not> open_ended then [RowLabel ''Name''] else []) @ [RowText names, RowBreak]
            @ (if \<not> open_ended then [RowLabel ''Class''] else []) @ [RowText pcs, EndTabular])))"

text \<open>The joined rows of an output, in the order written.\<close>

fun row_text :: "table_tex \<Rightarrow> string list" where
  "row_text (RowText r) = [r]"
| "row_text _ = []"

definition row_texts :: "table_tex run \<Rightarrow> string list" where
  "row_texts r = (case written r of None \<Rightarrow> [] | Some ls \<Rightarrow> concat (map row_text ls))"

subsection \<open>Grid and tatum\<close>











section \<open>Schema diagrams (\<^verbatim>\<open>schema.py\<close>)\<close>

text \<open>
  A circle is a dict with the keys \<^verbatim>\<open>"name"\<close> and \<^verbatim>\<open>"tag"\<close>, the tag an
  integer.
\<close>

record circle =
  name :: string
  tag :: int

datatype direction = BendLeft | BendRight

text \<open>
  The writes of \<^verbatim>\<open>schema_example\<close>:
  \<^item> \<open>Root r\<close>: the node \<^verbatim>\<open>(bottom)\<close> at the origin;
  \<^item> \<open>Top j y nm\<close>: \<^verbatim>\<open>\node (top{j}) at (0, {y}) [...] {nm};\<close>;
  \<^item> \<open>BoundingBox h\<close>: the dashed rectangle up to \<^verbatim>\<open>(0.5, {h})\<close>;
  \<^item> \<open>ArrowsComment\<close>: the comment line;
  \<^item> \<open>Arrow d b t j\<close>:
    \<^verbatim>\<open>\draw[->, bend {d}={b}] (bottom) to node[midway, {d}] {t} (top{j});\<close>.
\<close>

datatype schema_tex =
    SDocumentClass | SUsePackage | SUseTikzLibrary | SBeginDocument
  | SBeginPicture
  | Root string
  | Top int int string
  | BoundingBox rat
  | ArrowsComment
  | Arrow direction int int int
  | SEndPicture
  | SEndDocument

text \<open>The first loop over \<^verbatim>\<open>enumerate(circles)\<close>, from position \<open>i\<close> on.\<close>

fun top_nodes :: "int \<Rightarrow> circle list \<Rightarrow> schema_tex list" where
  "top_nodes i [] = []"
| "top_nodes i (c # cs) = Top (i + 1) (i + 1) (name c) # top_nodes (i + 1) cs"

text \<open>
  The second loop, from position \<open>i\<close> on, with the running \<^verbatim>\<open>bend_angle\<close>.
\<close>

fun arrows :: "int \<Rightarrow> int \<Rightarrow> circle list \<Rightarrow> schema_tex list" where
  "arrows i bend_angle [] = []"
| "arrows i bend_angle (c # cs) =
     Arrow (if i mod 2 = 0 then BendLeft else BendRight) bend_angle (tag c) (i + 1)
     # arrows (i + 1) (bend_angle + 20) cs"

text \<open>
  \<^verbatim>\<open>schema_example(root_name, circles, include_preamble)\<close>. The bounding box reads the
  loop variable \<open>i\<close> left by the first loop: its last value \<open>len(circles) - 1\<close>, or
  nothing at all when there is no circle.
\<close>

definition schema_example :: "string \<Rightarrow> circle list \<Rightarrow> bool \<Rightarrow> schema_tex run" where
  "schema_example root_name circles include_preamble =
     (let tags = map tag circles
      in if tags \<noteq> sort tags then (Some UnsortedTags, None)
         else
           (let out0 = (if include_preamble
                        then [SDocumentClass, SUsePackage, SUseTikzLibrary, SBeginDocument]
                        else [])
                       @ [SBeginPicture, Root root_name] @ top_nodes 0 circles
            in if circles = [] then (Some UnboundLocalError, Some out0)
               else (None, Some (out0
                       @ [BoundingBox (of_int (int (length circles) - 1) + 3 / 2), ArrowsComment]
                       @ arrows 0 0 circles
                       @ [SEndPicture]
                       @ (if include_preamble then [SEndDocument] else [])))))"

text \<open>The arrows of an output, in the order written.\<close>

fun arrow :: "schema_tex \<Rightarrow> (direction \<times> int \<times> int \<times> int) list" where
  "arrow (Arrow d b t j) = [(d, b, t, j)]"
| "arrow _ = []"

definition arrows_of :: "schema_tex run \<Rightarrow> (direction \<times> int \<times> int \<times> int) list" where
  "arrows_of r = (case written r of None \<Rightarrow> [] | Some ls \<Rightarrow> concat (map arrow ls))"


section \<open>Properties\<close>

subsection \<open>Basic facts\<close>

lemma raised_pair [simp]: "raised (e, w) = e"
  by (simp add: raised_def)

lemma written_pair [simp]: "written (e, w) = w"
  by (simp add: written_def)

lemma length_py_range [simp]: "length (py_range n) = nat n"
  by (simp add: py_range_def)

lemma nth_py_range [simp]: "i < nat n \<Longrightarrow> py_range n ! i = int i"
  by (simp add: py_range_def)

lemma check_ks_None: "check_ks ks n = None \<longleftrightarrow> (\<forall>k\<in>set ks. 0 \<le> k \<and> k < n)"
  by (induction ks) auto

lemma check_ks_Some:
  "check_ks ks n = Some e \<Longrightarrow> \<exists>k\<in>set ks. \<not> (0 \<le> k \<and> k < n) \<and> e = OutOfRangeIndex k n"
  by (induction ks) (auto split: if_splits)

lemma line_writes_error: "line_writes ks l a = (ls, Some e) \<Longrightarrow> e = IndexError"
  by (auto simp: line_writes_def last_line_def split: if_splits)

lemma node_strings_error:
  "node_strings ks n la dl t rs = Inl e \<Longrightarrow> e = InvalidLabelMode n \<and> t \<and> n \<noteq> 12"
  by (auto simp: node_strings_def split: if_splits)

lemma single_cycle_example_invalid:
  "check_ks ks n = Some e \<Longrightarrow>
   single_cycle_example (Some ks) n radius lines adj t p = (Some e, None)"
  by (simp add: single_cycle_example_def)

lemma single_cycle_example_raised_after_check:
  assumes "check_ks ks n = None"
  shows "raised (single_cycle_example (Some ks) n radius lines adj t p)
           \<in> {None, Some MathDomainError, Some (InvalidLabelMode n), Some IndexError}"
  using assms
  by (auto simp: single_cycle_example_def Let_def scale_of_def
      split: sum.splits prod.splits option.splits
      dest: line_writes_error node_strings_error)

subsection \<open>Highlighted indices out of range\<close>

text \<open>
  Claim C9. For a highlighted list given explicitly, \<^verbatim>\<open>single_cycle_example\<close> raises
  the out-of-range error exactly when some highlighted index is outside \<open>[0, n)\<close>. The
  error raised carries an offending index of the list and the bound \<open>n\<close>, both of which
  appear in its message, and nothing has been written when it is raised.
\<close>

theorem out_of_range_index_raised_iff:
  "((\<exists>k m. raised (single_cycle_example (Some ks) n radius lines adj t p)
             = Some (OutOfRangeIndex k m))
      \<longleftrightarrow> (\<exists>k\<in>set ks. \<not> (0 \<le> k \<and> k < n)))
   \<and> (\<forall>k m. raised (single_cycle_example (Some ks) n radius lines adj t p)
               = Some (OutOfRangeIndex k m)
         \<longrightarrow> k \<in> set ks \<and> \<not> (0 \<le> k \<and> k < n) \<and> m = n
             \<and> written (single_cycle_example (Some ks) n radius lines adj t p) = None
             \<and> message (OutOfRangeIndex k m)
                 = Some (''Highlighted index '' @ str_int k
                         @ '' is greater than the total n ('' @ str_int n @ '').''))"
proof (cases "check_ks ks n")
  case None
  from single_cycle_example_raised_after_check [OF None, of radius lines adj t p]
  have "\<nexists>k m. raised (single_cycle_example (Some ks) n radius lines adj t p)
             = Some (OutOfRangeIndex k m)"
    by auto
  moreover from None have "\<not> (\<exists>k\<in>set ks. \<not> (0 \<le> k \<and> k < n))"
    by (simp add: check_ks_None)
  ultimately show ?thesis by blast
next
  case (Some e)
  from check_ks_Some [OF Some] obtain k0 where
    k0: "k0 \<in> set ks" "\<not> (0 \<le> k0 \<and> k0 < n)" "e = OutOfRangeIndex k0 n"
    by blast
  have run: "single_cycle_example (Some ks) n radius lines adj t p
               = (Some (OutOfRangeIndex k0 n), None)"
    using single_cycle_example_invalid [OF Some] k0(3) by simp
  show ?thesis using k0(1,2) by (auto simp: run)
qed

theorem out_of_range_index_raised_iff_witness:
  "raised (single_cycle_example (Some [0, 3, 9]) 8 1 True True False False)
     = Some (OutOfRangeIndex 9 8)
   \<and> written (single_cycle_example (Some [0, 3, 9]) 8 1 True True False False) = None
   \<and> message (OutOfRangeIndex 9 8)
       = Some ''Highlighted index 9 is greater than the total n (8).''
   \<and> (\<exists>k\<in>set [0, 3, 9 :: int]. \<not> (0 \<le> k \<and> k < 8))"
proof -
  have r: "raised (single_cycle_example (Some [0, 3, 9]) 8 1 True True False False)
     = Some (OutOfRangeIndex 9 8)"
    by (simp add: single_cycle_example_def)
  have s9: "str_int 9 = ''9''" and s8: "str_int 8 = ''8''" by code_simp+
  from out_of_range_index_raised_iff [of "[0, 3, 9]" 8 1 True True False False] r
  show ?thesis by (simp add: s9 s8)
qed

subsection \<open>Lines between highlighted points\<close>

text \<open>
  Claim C1. In adjacent mode the last line is always drawn to the node \<open>n0\<close>, whatever the
  first highlighted point is: for the highlighted list \<open>[2, 5]\<close> on 8 points the segments
  written are \<open>2-5\<close> and \<open>5-0\<close>, and no segment leads back to the point 2.
\<close>

theorem adjacent_last_line_to_node_zero:
  "segments (single_cycle_example (Some [2, 5]) 8 1 True True False False) = [(2, 5), (5, 0)]"
  by code_simp

subsection \<open>Angles and labels of the nodes\<close>



lemma node_strings_ok:
  "\<not> (t \<and> n \<noteq> 12) \<Longrightarrow>
   node_strings ks n la dl t rs = Inr (map (node_string ks n la dl t rs) (py_range n))"
  by (simp add: node_strings_def)


lemma node_index_node_string: "node_index (node_string ks n la dl t rs i) = i"
  by (simp add: node_string_def Let_def)



lemma length_pitch_name_list: "length pitch_name_list = 12"
  by (simp add: pitch_name_list_def)

lemma node_label_node_string_tonality:
  "node_label (node_string ks n la dl True rs i) = PitchName (pitch_name_list ! nat i)"
  by (simp add: node_string_def Let_def)

text \<open>
  Claim C4. With pitch-class labels requested, \<^verbatim>\<open>node_strings\<close> returns nodes exactly
  when \<open>n = 12\<close> and raises the label error, carrying \<open>n\<close>, otherwise. For \<open>n = 12\<close> the
  node of index \<open>i\<close> is labelled with entry \<open>i\<close> of the table of the twelve pitch names.
\<close>

theorem pitch_class_labels_iff_twelve:
  "((\<exists>nodes. node_strings ks n la dl True rs = Inr nodes) \<longleftrightarrow> n = 12)
   \<and> (n \<noteq> 12 \<longrightarrow> node_strings ks n la dl True rs = Inl (InvalidLabelMode n))
   \<and> (n = 12 \<longrightarrow>
        (\<exists>nodes. node_strings ks n la dl True rs = Inr nodes
           \<and> length nodes = 12 \<and> length pitch_name_list = 12
           \<and> (\<forall>i<12. node_index (nodes ! i) = int i
                \<and> node_label (nodes ! i) = PitchName (pitch_name_list ! i))))"
proof (cases "n = 12")
  case False
  then show ?thesis by (simp add: node_strings_def)
next
  case True
  let ?nodes = "map (node_string ks 12 la dl True rs) (py_range 12)"
  have ok: "node_strings ks 12 la dl True rs = Inr ?nodes"
    by (simp add: node_strings_def)
  have "node_index (?nodes ! i) = int i
      \<and> node_label (?nodes ! i) = PitchName (pitch_name_list ! i)" if "i < 12" for i
    using that by (simp add: node_label_node_string_tonality node_index_node_string)
  with ok show ?thesis
    using True by (simp add: length_pitch_name_list)
qed

theorem pitch_class_labels_iff_twelve_witness:
  "node_strings [2, 5, 8, 11] 8 True False True radius_var = Inl (InvalidLabelMode 8)
   \<and> (\<exists>nodes. node_strings [2, 5, 8, 11] 12 True False True radius_var = Inr nodes
         \<and> node_label (nodes ! 0) = PitchName ''C''
         \<and> node_label (nodes ! 11) = PitchName ''B'')"
proof -
  have "pitch_name_list ! 0 = ''C''" "pitch_name_list ! 11 = ''B''"
    by (simp_all add: pitch_name_list_def)
  with pitch_class_labels_iff_twelve [of "[2, 5, 8, 11]" 8 True False radius_var]
    pitch_class_labels_iff_twelve [of "[2, 5, 8, 11]" 12 True False radius_var]
  show ?thesis by auto
qed

subsection \<open>The shape of the output of a single cycle\<close>

lemma single_cycle_example_domain_error:
  assumes "check_ks ks n = None" and "n \<le> 0"
  shows "single_cycle_example (Some ks) n radius lines adj t p
           = (Some MathDomainError, Some (preamble p))"
  using assms by (simp add: single_cycle_example_def scale_of_def)

lemma single_cycle_example_label_error:
  assumes "check_ks ks n = None" and "1 \<le> n" and "t" and "n \<noteq> 12"
  shows "single_cycle_example (Some ks) n radius lines adj t p
           = (Some (InvalidLabelMode n), Some (header n radius p))"
  using assms by (simp add: single_cycle_example_def scale_of_def node_strings_def header_def)

lemma single_cycle_example_lines:
  assumes "check_ks ks n = None" and "1 \<le> n" and "t \<longrightarrow> n = 12"
  shows "single_cycle_example (Some ks) n radius lines adj t p
           = (case line_writes ks lines adj of
                (ls, Some e) \<Rightarrow>
                  (Some e, Some (header n radius p
                     @ map NodeLine (map (node_string ks n True False t radius_var) (py_range n))
                     @ ls))
              | (ls, None) \<Rightarrow>
                  (None, Some (header n radius p
                     @ map NodeLine (map (node_string ks n True False t radius_var) (py_range n))
                     @ ls @ [EndPicture] @ postamble p)))"
proof -
  have ns: "node_strings ks n True False t radius_var
              = Inr (map (node_string ks n True False t radius_var) (py_range n))"
    using assms(3) by (intro node_strings_ok) simp
  have sc: "scale_of n = Inr (int (ilog2 (nat n)) - 1)"
    using assms(2) by (simp add: scale_of_def)
  show ?thesis
    by (simp add: single_cycle_example_def assms(1) sc ns header_def
        split: prod.splits option.splits)
qed

lemma segment_preamble [simp]: "concat (map segment (preamble p)) = []"
  by (auto simp: preamble_def)

lemma segment_postamble [simp]: "concat (map segment (postamble p)) = []"
  by (simp add: postamble_def)

lemma segment_header [simp]: "concat (map segment (header n radius p)) = []"
  by (simp add: header_def)

lemma segment_nodes [simp]: "concat (map segment (map NodeLine nodes)) = []"
  by (induction nodes) simp_all

lemma segment_Draw: "concat (map segment (map (\<lambda>p. Draw (fst p) (snd p)) ps)) = ps"
  by (induction ps) simp_all

lemma segment_all_lines [simp]: "concat (map segment (all_lines ks)) = combinations2 ks"
  unfolding all_lines_def by (rule segment_Draw)

lemma segments_Some: "segments (e, Some ls) = concat (map segment ls)"
  by (simp add: segments_def)

subsection \<open>Pairs of positions\<close>

lemma length_combinations2_double:
  "2 * length (combinations2 xs) + length xs = length xs * length xs"
  by (induction xs) (simp_all add: algebra_simps)

lemma length_combinations2: "length (combinations2 xs) = length xs * (length xs - 1) div 2"
proof -
  have "length xs * (length xs - 1) = length xs * length xs - length xs"
    by (simp add: algebra_simps)
  also have "\<dots> = 2 * length (combinations2 xs)"
    using length_combinations2_double [of xs] by simp
  finally show ?thesis by simp
qed

lemma set_combinations2: "(a, b) \<in> set (combinations2 xs) \<Longrightarrow> a \<in> set xs \<and> b \<in> set xs"
  by (induction xs) auto

lemma combinations2_distinct:
  "distinct xs \<Longrightarrow> (a, b) \<in> set (combinations2 xs) \<Longrightarrow> a \<noteq> b"
  by (induction xs) (auto dest: set_combinations2)

lemma count_list_Pair_fst: "count_list (map (Pair x) xs) (a, b) = (if a = x then count_list xs b else 0)"
  by (induction xs) auto

lemma count_list_distinct: "distinct xs \<Longrightarrow> x \<in> set xs \<Longrightarrow> count_list xs x = 1"
  by (induction xs) auto

lemma count_combinations2_notin:
  "a \<notin> set xs \<or> b \<notin> set xs \<Longrightarrow> count_list (combinations2 xs) (a, b) = 0"
  by (auto simp: count_list_0_iff dest: set_combinations2)

lemma count_combinations2:
  assumes "distinct xs" and "a \<in> set xs" and "b \<in> set xs" and "a \<noteq> b"
  shows "count_list (combinations2 xs) (a, b) + count_list (combinations2 xs) (b, a) = 1"
  using assms
proof (induction xs)
  case Nil
  then show ?case by simp
next
  case (Cons x xs)
  from Cons.prems(1) have d: "distinct xs" and x: "x \<notin> set xs" by simp_all
  consider (a) "a = x" | (b) "b = x" | (rest) "a \<noteq> x" "b \<noteq> x" by blast
  then show ?case
  proof cases
    case a
    with Cons.prems have b: "b \<in> set xs" "b \<noteq> x" by auto
    show ?thesis
      using a b x d
      by (simp add: count_list_Pair_fst count_list_distinct count_combinations2_notin)
  next
    case b
    with Cons.prems have a: "a \<in> set xs" "a \<noteq> x" by auto
    show ?thesis
      using a b x d
      by (simp add: count_list_Pair_fst count_list_distinct count_combinations2_notin)
  next
    case rest
    with Cons.prems have "a \<in> set xs" "b \<in> set xs" by auto
    with Cons.IH [OF d] Cons.prems(4) rest show ?thesis
      by (simp add: count_list_Pair_fst)
  qed
qed

text \<open>
  Claim C8. In all-pairs mode, for a highlighted list of \<open>m\<close> distinct valid indices (and a
  valid choice of labels), the segments written are the pairs of positions \<open>i < j\<close> of the
  list: there are \<open>m (m - 1) / 2\<close> of them, every segment joins two different highlighted
  points, and every unordered pair of highlighted points is joined by exactly one segment,
  in one of its two orientations.
\<close>

theorem all_pairs_segments_each_pair_once:
  assumes "distinct ks" and "\<forall>k\<in>set ks. 0 \<le> k \<and> k < n" and "t \<longrightarrow> n = 12"
  shows "segments (single_cycle_example (Some ks) n radius True False t p) = combinations2 ks
    \<and> length (segments (single_cycle_example (Some ks) n radius True False t p))
        = length ks * (length ks - 1) div 2
    \<and> (\<forall>a\<in>set ks. \<forall>b\<in>set ks. a \<noteq> b \<longrightarrow>
          count_list (segments (single_cycle_example (Some ks) n radius True False t p)) (a, b)
          + count_list (segments (single_cycle_example (Some ks) n radius True False t p)) (b, a)
          = 1)
    \<and> (\<forall>s\<in>set (segments (single_cycle_example (Some ks) n radius True False t p)).
          fst s \<in> set ks \<and> snd s \<in> set ks \<and> fst s \<noteq> snd s)
    \<and> (ks \<noteq> [] \<longrightarrow> raised (single_cycle_example (Some ks) n radius True False t p) = None)"
proof -
  let ?run = "single_cycle_example (Some ks) n radius True False t p"
  have chk: "check_ks ks n = None" using assms(2) by (simp add: check_ks_None)
  have lw: "line_writes ks True False = (all_lines ks, None)"
    by (simp add: line_writes_def)
  have segs: "segments ?run = combinations2 ks"
  proof (cases "1 \<le> n")
    case True
    show ?thesis
      by (simp add: single_cycle_example_lines [OF chk True assms(3)] lw segments_Some)
  next
    case False
    then have n: "n \<le> 0" by simp
    with assms(2) have "ks = []" by (cases ks) auto
    then have "combinations2 ks = []" by simp
    then show ?thesis
      unfolding single_cycle_example_domain_error [OF chk n] by (simp add: segments_Some)
  qed
  have ok: "raised ?run = None" if "ks \<noteq> []"
  proof -
    from that assms(2) have "1 \<le> n" by (cases ks) auto
    then show ?thesis
      by (simp add: single_cycle_example_lines [OF chk _ assms(3)] lw)
  qed
  have pairs: "fst s \<in> set ks \<and> snd s \<in> set ks \<and> fst s \<noteq> snd s"
    if "s \<in> set (combinations2 ks)" for s
    using that set_combinations2 [of "fst s" "snd s" ks]
      combinations2_distinct [OF assms(1), of "fst s" "snd s"] by simp
  show ?thesis
    unfolding segs
    using length_combinations2 [of ks] count_combinations2 [OF assms(1)] pairs ok
    by blast
qed

theorem all_pairs_segments_each_pair_once_witness:
  "distinct [0, 3, 6, 8, 11, 14 :: int]
   \<and> segments (single_cycle_example (Some [0, 3, 6, 8, 11, 14]) 16 1 True False False False)
       = [(0, 3), (0, 6), (0, 8), (0, 11), (0, 14), (3, 6), (3, 8), (3, 11), (3, 14),
          (6, 8), (6, 11), (6, 14), (8, 11), (8, 14), (11, 14)]
   \<and> length (segments
        (single_cycle_example (Some [0, 3, 6, 8, 11, 14]) 16 1 True False False False)) = 15
   \<and> raised (single_cycle_example (Some [0, 3, 6, 8, 11, 14]) 16 1 True False False False)
       = None"
proof -
  have h1: "distinct [0, 3, 6, 8, 11, 14 :: int]" by simp
  have h2: "\<forall>k\<in>set [0, 3, 6, 8, 11, 14 :: int]. 0 \<le> k \<and> k < 16" by simp
  have h3: "False \<longrightarrow> (16 :: int) = 12" by simp
  from all_pairs_segments_each_pair_once [OF h1 h2 h3, of 1 False] h1 show ?thesis by simp
qed

subsection \<open>An empty highlighted list\<close>

lemma line_writes_empty_adjacent: "line_writes [] True True = ([], Some IndexError)"
  by (simp add: line_writes_def last_line_def adjacent_lines_def)

lemma node_fill_empty: "node_fill (node_string [] n la dl t rs i) = White"
  by (simp add: node_string_def Let_def)

text \<open>
  Claim C10. With the empty highlighted list and lines in adjacent mode,
  \<^verbatim>\<open>single_cycle_example\<close> always ends with an exception. For \<open>n \<ge> 1\<close> and a valid
  choice of labels the index check passes, the header with the circle and the \<open>n\<close> nodes,
  all unfilled, are written, and then reading the last highlighted point raises the index
  error: the file is left without the end of the picture.
\<close>

theorem empty_highlights_adjacent_fails:
  "raised (single_cycle_example (Some []) n radius True True t p) \<noteq> None
   \<and> (1 \<le> n \<and> (t \<longrightarrow> n = 12) \<longrightarrow>
        raised (single_cycle_example (Some []) n radius True True t p) = Some IndexError
        \<and> (\<exists>nodes. written (single_cycle_example (Some []) n radius True True t p)
                      = Some (header n radius p @ map NodeLine nodes)
               \<and> node_strings [] n True False t radius_var = Inr nodes
               \<and> length nodes = nat n
               \<and> (\<forall>nd\<in>set nodes. node_fill nd = White)
               \<and> Circle radius_var \<in> set (header n radius p)
               \<and> EndPicture \<notin> set (header n radius p @ map NodeLine nodes)))"
proof -
  let ?run = "single_cycle_example (Some []) n radius True True t p"
  let ?nodes = "map (node_string [] n True False t radius_var) (py_range n)"
  have chk: "check_ks [] n = None" by simp
  have valid: "raised ?run = Some IndexError
        \<and> (\<exists>nodes. written ?run = Some (header n radius p @ map NodeLine nodes)
               \<and> node_strings [] n True False t radius_var = Inr nodes
               \<and> length nodes = nat n
               \<and> (\<forall>nd\<in>set nodes. node_fill nd = White)
               \<and> Circle radius_var \<in> set (header n radius p)
               \<and> EndPicture \<notin> set (header n radius p @ map NodeLine nodes))"
    if n: "1 \<le> n" and t: "t \<longrightarrow> n = 12"
  proof -
    have run: "?run = (Some IndexError, Some (header n radius p @ map NodeLine ?nodes))"
      by (simp add: single_cycle_example_lines [OF chk n t] line_writes_empty_adjacent)
    have ns: "node_strings [] n True False t radius_var = Inr ?nodes"
      using t by (intro node_strings_ok) simp
    have white: "\<forall>nd\<in>set ?nodes. node_fill nd = White"
      by (simp add: node_fill_empty)
    have circle: "Circle radius_var \<in> set (header n radius p)"
      by (simp add: header_def)
    have no_end: "EndPicture \<notin> set (header n radius p @ map NodeLine ?nodes)"
      by (auto simp: header_def preamble_def)
    from run ns white circle no_end show ?thesis
      by (intro conjI exI [of _ ?nodes]) simp_all
  qed
  have fails: "raised ?run \<noteq> None"
  proof (cases "1 \<le> n")
    case False
    then have "n \<le> 0" by simp
    from single_cycle_example_domain_error [OF chk this] show ?thesis by simp
  next
    case n: True
    show ?thesis
    proof (cases "t \<and> n \<noteq> 12")
      case True
      then have "t" "n \<noteq> 12" by simp_all
      from single_cycle_example_label_error [OF chk n this] show ?thesis by simp
    next
      case False
      then have "t \<longrightarrow> n = 12" by simp
      from valid [OF n this] show ?thesis by simp
    qed
  qed
  from fails valid show ?thesis by blast
qed

theorem empty_highlights_adjacent_fails_witness:
  "raised (single_cycle_example (Some []) 3 1 True True False False) = Some IndexError
   \<and> (\<exists>nodes. written (single_cycle_example (Some []) 3 1 True True False False)
                 = Some ([BeginPicture 0, DefRadius radius_var 1, Origin, Circle radius_var]
                         @ map NodeLine nodes)
          \<and> length nodes = 3)"
proof -
  have h: "header 3 1 False = [BeginPicture 0, DefRadius radius_var 1, Origin, Circle radius_var]"
    by (simp add: header_def preamble_def) code_simp
  from empty_highlights_adjacent_fails [of 3 1 False False] show ?thesis
    unfolding h by auto
qed

subsection \<open>When the validation errors are raised\<close>

lemma single_cycle_example_error_cases:
  assumes "raised (single_cycle_example ks_opt n radius lines adj t p) = Some e"
  shows "((\<exists>k. e = OutOfRangeIndex k n)
            \<and> written (single_cycle_example ks_opt n radius lines adj t p) = None)
         \<or> e = MathDomainError
         \<or> (e = InvalidLabelMode n
            \<and> written (single_cycle_example ks_opt n radius lines adj t p)
                = Some (header n radius p))
         \<or> e = IndexError"
  using assms
  by (auto simp: single_cycle_example_def Let_def scale_of_def header_def
      split: sum.splits prod.splits option.splits if_splits
      dest: line_writes_error node_strings_error check_ks_Some)

lemma two_circles_error_cases:
  assumes "raised (two_circles ik inn ir ook onn orr p) = Some e"
  shows "(\<exists>k m. e = OutOfRangeIndex k m) \<and> written (two_circles ik inn ir ook onn orr p) = None"
  using assms
  by (auto simp: two_circles_def Let_def node_strings_def
      split: sum.splits option.splits if_splits dest: check_ks_Some)

lemma schema_example_error_cases:
  assumes "raised (schema_example root_name circles p) = Some e"
  shows "(e = UnsortedTags \<and> written (schema_example root_name circles p) = None)
         \<or> e = UnboundLocalError"
  using assms
  by (auto simp: schema_example_def Let_def split: if_splits)

text \<open>
  Claim C2 fails for the label error: \<^verbatim>\<open>node_strings\<close> raises it when the file is
  already open and holds the start of the picture and the circle. For 8 points with
  pitch-class labels:
\<close>

theorem label_error_after_output_started:
  "raised (single_cycle_example (Some [0]) 8 1 True True True False) = Some (InvalidLabelMode 8)
   \<and> written (single_cycle_example (Some [0]) 8 1 True True True False)
       = Some [BeginPicture 2, DefRadius radius_var 1, Origin, Circle radius_var]"
  by code_simp

text \<open>
  Claim C2, amended. The out-of-range error (in \<^verbatim>\<open>single_cycle_example\<close> and in
  \<^verbatim>\<open>two_circles\<close>) and the error for unsorted tags are raised before the output file
  is opened. The label error is raised by \<^verbatim>\<open>single_cycle_example\<close> after the file has
  been opened, when exactly the header has been written; \<^verbatim>\<open>two_circles\<close> never raises
  it.
\<close>

theorem validation_errors_and_output:
  "(raised (single_cycle_example ks_opt n radius lines adj t p) = Some (OutOfRangeIndex k m)
      \<longrightarrow> written (single_cycle_example ks_opt n radius lines adj t p) = None)
   \<and> (raised (two_circles ik inn ir ook onn orr p2) = Some (OutOfRangeIndex k2 m2)
      \<longrightarrow> written (two_circles ik inn ir ook onn orr p2) = None)
   \<and> (raised (schema_example root_name circles p3) = Some UnsortedTags
      \<longrightarrow> written (schema_example root_name circles p3) = None)
   \<and> (raised (single_cycle_example ks_opt4 n4 radius4 lines4 adj4 t4 p4)
        = Some (InvalidLabelMode m4)
      \<longrightarrow> written (single_cycle_example ks_opt4 n4 radius4 lines4 adj4 t4 p4)
            = Some (header n4 radius4 p4)
          \<and> header n4 radius4 p4 \<noteq> [])
   \<and> raised (two_circles ik inn ir ook onn orr p2) \<noteq> Some (InvalidLabelMode m)"
proof -
  have a: "written (single_cycle_example ks_opt n radius lines adj t p) = None"
    if "raised (single_cycle_example ks_opt n radius lines adj t p) = Some (OutOfRangeIndex k m)"
    using single_cycle_example_error_cases [OF that] by auto
  have b: "written (two_circles ik inn ir ook onn orr p2) = None"
    if "raised (two_circles ik inn ir ook onn orr p2) = Some (OutOfRangeIndex k2 m2)"
    using two_circles_error_cases [OF that] by auto
  have c: "written (schema_example root_name circles p3) = None"
    if "raised (schema_example root_name circles p3) = Some UnsortedTags"
    using schema_example_error_cases [OF that] by auto
  have d: "written (single_cycle_example ks_opt4 n4 radius4 lines4 adj4 t4 p4)
            = Some (header n4 radius4 p4) \<and> header n4 radius4 p4 \<noteq> []"
    if "raised (single_cycle_example ks_opt4 n4 radius4 lines4 adj4 t4 p4)
          = Some (InvalidLabelMode m4)"
    using single_cycle_example_error_cases [OF that] by (auto simp: header_def)
  have e: "raised (two_circles ik inn ir ook onn orr p2) \<noteq> Some (InvalidLabelMode m)"
    using two_circles_error_cases [of ik inn ir ook onn orr p2 "InvalidLabelMode m"] by auto
  from a b c d e show ?thesis by blast
qed

theorem validation_errors_and_output_witness:
  "raised (single_cycle_example (Some [0, 3, 9]) 8 1 True True False False)
     = Some (OutOfRangeIndex 9 8)
   \<and> written (single_cycle_example (Some [0, 3, 9]) 8 1 True True False False) = None
   \<and> raised (two_circles None 3 (3 / 2) (Some [0, 3, 9]) 8 2 False) = Some (OutOfRangeIndex 9 8)
   \<and> written (two_circles None 3 (3 / 2) (Some [0, 3, 9]) 8 2 False) = None
   \<and> raised (schema_example ''C'' [\<lparr>name = ''E'', tag = 3\<rparr>, \<lparr>name = ''D'', tag = 2\<rparr>,
        \<lparr>name = ''F'', tag = 4\<rparr>] False) = Some UnsortedTags
   \<and> written (schema_example ''C'' [\<lparr>name = ''E'', tag = 3\<rparr>, \<lparr>name = ''D'', tag = 2\<rparr>,
        \<lparr>name = ''F'', tag = 4\<rparr>] False) = None
   \<and> raised (single_cycle_example (Some [0]) 8 1 True True True False)
       = Some (InvalidLabelMode 8)
   \<and> written (single_cycle_example (Some [0]) 8 1 True True True False)
       = Some (header 8 1 False)"
proof -
  have h1: "raised (single_cycle_example (Some [0, 3, 9]) 8 1 True True False False)
     = Some (OutOfRangeIndex 9 8)"
    by (simp add: single_cycle_example_def)
  have h2: "raised (two_circles None 3 (3 / 2) (Some [0, 3, 9]) 8 2 False)
     = Some (OutOfRangeIndex 9 8)"
    by (simp add: two_circles_def)
  have h3: "raised (schema_example ''C'' [\<lparr>name = ''E'', tag = 3\<rparr>, \<lparr>name = ''D'', tag = 2\<rparr>,
        \<lparr>name = ''F'', tag = 4\<rparr>] False) = Some UnsortedTags"
    by (simp add: schema_example_def)
  have h4: "raised (single_cycle_example (Some [0]) 8 1 True True True False)
       = Some (InvalidLabelMode 8)"
    by (simp add: single_cycle_example_label_error)
  from validation_errors_and_output [of "Some [0, 3, 9]" 8 1 True True False False 9 8
              None 3 "3 / 2" "Some [0, 3, 9]" 8 2 False 9 8
              "''C''" "[\<lparr>name = ''E'', tag = 3\<rparr>, \<lparr>name = ''D'', tag = 2\<rparr>,
                        \<lparr>name = ''F'', tag = 4\<rparr>]" False
              "Some [0]" 8 1 True True True False 8]
    h1 h2 h3 h4
  show ?thesis by simp
qed

subsection \<open>The arrows of a schema\<close>

lemma arrow_top_nodes: "concat (map arrow (top_nodes i cs)) = []"
  by (induction cs arbitrary: i) simp_all

lemma arrow_arrows:
  "concat (map arrow (arrows i b cs))
     = map (\<lambda>j. (if (i + int j) mod 2 = 0 then BendLeft else BendRight,
                  b + 20 * int j, tag (cs ! j), i + int j + 1)) [0..<length cs]"
proof (induction cs arbitrary: i b)
  case Nil
  show ?case by simp
next
  case (Cons c cs)
  have upt: "[0..<length (c # cs)] = 0 # map Suc [0..<length cs]"
    by (simp add: upt_conv_Cons map_Suc_upt del: upt_Suc)
  show ?case
    unfolding upt by (simp add: Cons.IH comp_def algebra_simps)
qed

lemma schema_example_sorted:
  assumes "sorted (map tag circles)"
  shows "schema_example root_name circles p =
     (let out0 = (if p then [SDocumentClass, SUsePackage, SUseTikzLibrary, SBeginDocument]
                  else [])
                 @ [SBeginPicture, Root root_name] @ top_nodes 0 circles
      in if circles = [] then (Some UnboundLocalError, Some out0)
         else (None, Some (out0
                 @ [BoundingBox (of_int (int (length circles) - 1) + 3 / 2), ArrowsComment]
                 @ arrows 0 0 circles
                 @ [SEndPicture]
                 @ (if p then [SEndDocument] else []))))"
proof -
  from assms have "sort (map tag circles) = map tag circles" by (rule sorted_sort_id)
  then show ?thesis by (simp add: schema_example_def Let_def)
qed

text \<open>
  Claim C7. For a schema whose tags are in non-decreasing order, the arrows written are one
  for each upper node, in order: the arrow of the node at position \<open>i\<close> leads from the root
  to \<^verbatim>\<open>top{i + 1}\<close>, carries the tag of that node, has bend angle \<open>20 i\<close>, and bends
  left for even \<open>i\<close> and right for odd \<open>i\<close>. With at least one upper node the call ends
  normally.
\<close>

theorem schema_arrows_alternate_and_bend:
  assumes "sorted (map tag circles)"
  shows "arrows_of (schema_example root_name circles p)
           = map (\<lambda>i. (if even i then BendLeft else BendRight, 20 * int i, tag (circles ! i),
                        int i + 1)) [0..<length circles]
         \<and> length (arrows_of (schema_example root_name circles p)) = length circles
         \<and> (circles \<noteq> [] \<longrightarrow> raised (schema_example root_name circles p) = None)"
proof -
  have parity: "(if (0 + int j) mod 2 = 0 then BendLeft else BendRight)
                  = (if even j then BendLeft else BendRight)" for j
    by (simp add: even_iff_mod_2_eq_zero) presburger
  have arr: "concat (map arrow (arrows 0 0 circles))
           = map (\<lambda>i. (if even i then BendLeft else BendRight, 20 * int i, tag (circles ! i),
                        int i + 1)) [0..<length circles]"
    unfolding arrow_arrows parity by simp
  have eq: "arrows_of (schema_example root_name circles p)
           = map (\<lambda>i. (if even i then BendLeft else BendRight, 20 * int i, tag (circles ! i),
                        int i + 1)) [0..<length circles]"
  proof (cases "circles = []")
    case True
    then show ?thesis
      unfolding schema_example_sorted [OF assms] by (auto simp: arrows_of_def)
  next
    case False
    then show ?thesis
      by (simp add: schema_example_sorted [OF assms] arrows_of_def arrow_top_nodes arr
          del: upt_Suc)
  qed
  have ok: "raised (schema_example root_name circles p) = None" if "circles \<noteq> []"
    using that by (simp add: schema_example_sorted [OF assms])
  from eq ok show ?thesis by simp
qed

theorem schema_arrows_alternate_and_bend_witness:
  "sorted (map tag [\<lparr>name = ''D'', tag = 2\<rparr>, \<lparr>name = ''E'', tag = 3\<rparr>, \<lparr>name = ''F'', tag = 4\<rparr>])
   \<and> arrows_of (schema_example ''C''
        [\<lparr>name = ''D'', tag = 2\<rparr>, \<lparr>name = ''E'', tag = 3\<rparr>, \<lparr>name = ''F'', tag = 4\<rparr>] False)
       = [(BendLeft, 0, 2, 1), (BendRight, 20, 3, 2), (BendLeft, 40, 4, 3)]
   \<and> raised (schema_example ''C''
        [\<lparr>name = ''D'', tag = 2\<rparr>, \<lparr>name = ''E'', tag = 3\<rparr>, \<lparr>name = ''F'', tag = 4\<rparr>] False)
       = None"
proof -
  have h: "sorted (map tag
      [\<lparr>name = ''D'', tag = 2\<rparr>, \<lparr>name = ''E'', tag = 3\<rparr>, \<lparr>name = ''F'', tag = 4\<rparr>])"
    by simp
  from schema_arrows_alternate_and_bend [OF h, of "''C''" False] h show ?thesis
    by simp
qed

subsection \<open>The segments of adjacent mode\<close>

lemma segment_adjacent_lines:
  "concat (map segment (adjacent_lines ks))
     = map (\<lambda>i. (ks ! i, ks ! (i + 1))) [0..<length ks - 1]"
  unfolding adjacent_lines_def by (induction "[0..<length ks - 1]") (simp_all add: comp_def)

lemma single_cycle_example_adjacent_segments:
  assumes "ks \<noteq> []" and "\<forall>k\<in>set ks. 0 \<le> k \<and> k < n" and "t \<longrightarrow> n = 12"
  shows "segments (single_cycle_example (Some ks) n radius True True t p)
           = map (\<lambda>i. (ks ! i, ks ! (i + 1))) [0..<length ks - 1] @ [(last ks, 0)]"
proof -
  have chk: "check_ks ks n = None" using assms(2) by (simp add: check_ks_None)
  from assms(1,2) have n: "1 \<le> n" by (cases ks) auto
  have lw: "line_writes ks True True = (adjacent_lines ks @ [Draw (last ks) 0], None)"
    using assms(1) by (simp add: line_writes_def last_line_def)
  show ?thesis
    by (simp add: single_cycle_example_lines [OF chk n assms(3)] lw segments_Some
        segment_adjacent_lines del: upt_Suc)
qed

text \<open>
  The highlighted list of the tresillo starts at 0, so there the last line does lead back
  to the first highlighted point.
\<close>

lemma tresillo_segments:
  "segments (single_cycle_example (Some [0, 3, 6]) 8 1 True True False False)
     = [(0, 3), (3, 6), (6, 0)]"
  by code_simp

subsection \<open>The rows of the linear table\<close>

lemma map_shift_upto: "map (\<lambda>k. a + int k) [0..<n] = [a..a + int n - 1]"
proof (induction n)
  case 0
  show ?case by simp
next
  case (Suc n)
  have "[a..a + int (Suc n) - 1] = [a..a + int n - 1] @ [a + int n]"
    using upto_rec2 [of a "a + int n"] by simp
  with Suc show ?case by simp
qed

lemma py_range2_upto: "a \<le> b \<Longrightarrow> py_range2 a b = [a..b - 1]"
  using map_shift_upto [of a "nat (b - a)"] by (simp add: py_range2_def)

lemma py_range_upto: "0 \<le> n \<Longrightarrow> py_range n = [0..n - 1]"
  using map_shift_upto [of 0 "nat n"] by (simp add: py_range_def)

lemma row_texts_table:
  "row_texts (midi_pitch_pc_table s e p oe)
     = [join '' & '' (midi_cells s e oe), join '' & '' (name_cells s e oe),
        join '' & '' (pc_cells s e oe)]"
  by (simp add: midi_pitch_pc_table_def row_texts_def Let_def)

text \<open>
  Claim C5. For a start octave below the end octave, the value row of the table holds the
  integers from \<open>12 start\<close> to \<open>12 end - 1\<close> in order, between the two end cells: that
  is \<open>12 (end - start)\<close> value columns. The pitch-class row holds the sequence
  \<open>0, ..., 11\<close> repeated \<open>end - start\<close> times and the name row the twelve pitch names
  repeated \<open>end - start\<close> times. The three rows are written joined, in the order
  values, names, pitch classes.
\<close>

theorem linear_table_rows:
  assumes "start_octave < end_octave"
  shows "midi_cells start_octave end_octave open_ended
           = end_cell open_ended
             @ map str_int [12 * start_octave..12 * end_octave - 1]
             @ end_cell open_ended
         \<and> int (length [12 * start_octave..12 * end_octave - 1])
             = 12 * (end_octave - start_octave)
         \<and> pc_cells start_octave end_octave open_ended
             = end_cell open_ended
               @ concat (replicate (nat (end_octave - start_octave)) (map str_int [0..11]))
               @ end_cell open_ended
         \<and> name_cells start_octave end_octave open_ended
             = end_cell open_ended
               @ concat (replicate (nat (end_octave - start_octave)) pitch_name_list)
               @ end_cell open_ended
         \<and> length pitch_name_list = 12
         \<and> row_texts (midi_pitch_pc_table start_octave end_octave include_preamble open_ended)
             = [join '' & '' (midi_cells start_octave end_octave open_ended),
                join '' & '' (name_cells start_octave end_octave open_ended),
                join '' & '' (pc_cells start_octave end_octave open_ended)]"
proof -
  have le: "start_octave * 12 \<le> end_octave * 12" using assms by simp
  have midi: "midi_cells start_octave end_octave open_ended
           = end_cell open_ended
             @ map str_int [12 * start_octave..12 * end_octave - 1]
             @ end_cell open_ended"
    by (simp add: midi_cells_def py_range2_upto [OF le] mult.commute)
  have len: "int (length [12 * start_octave..12 * end_octave - 1])
             = 12 * (end_octave - start_octave)"
    using assms by simp
  have r12: "py_range 12 = [0..11]"
    using py_range_upto [of 12] by simp
  have pc: "pc_cells start_octave end_octave open_ended
             = end_cell open_ended
               @ concat (replicate (nat (end_octave - start_octave)) (map str_int [0..11]))
               @ end_cell open_ended"
    by (simp add: pc_cells_def list_mul_def r12 map_concat)
  have nm: "name_cells start_octave end_octave open_ended
             = end_cell open_ended
               @ concat (replicate (nat (end_octave - start_octave)) pitch_name_list)
               @ end_cell open_ended"
    by (simp add: name_cells_def list_mul_def)
  from midi len pc nm length_pitch_name_list row_texts_table show ?thesis
    by (intro conjI)
qed

theorem linear_table_rows_witness:
  "(4::int) < 6
   \<and> midi_cells 4 6 False = [[]] @ [''48'', ''49'', ''50'', ''51'', ''52'', ''53'', ''54'', ''55'', ''56'', ''57'', ''58'', ''59'', ''60'', ''61'', ''62'', ''63'', ''64'', ''65'', ''66'', ''67'', ''68'', ''69'', ''70'', ''71''] @ [[]]
   \<and> pc_cells 4 6 False = [[]] @ map str_int [0..11] @ map str_int [0..11] @ [[]]
   \<and> pc_cells 4 6 False ! 12 = ''11'' \<and> pc_cells 4 6 False ! 13 = ''0''
   \<and> length (pc_cells 4 6 False) = 26
   \<and> name_cells 4 6 False = [[]] @ pitch_name_list @ pitch_name_list @ [[]]"
proof -
  have h: "(4::int) < 6" by simp
  have u1: "map str_int [12 * 4..12 * 6 - 1] = [''48'', ''49'', ''50'', ''51'', ''52'', ''53'', ''54'', ''55'', ''56'', ''57'', ''58'', ''59'', ''60'', ''61'', ''62'', ''63'', ''64'', ''65'', ''66'', ''67'', ''68'', ''69'', ''70'', ''71'']"
    by code_simp
  have u2: "concat (replicate (nat (6 - 4)) (map str_int [0..11]))
              = map str_int [0..11] @ map str_int [0..11]"
    by (simp add: numeral_2_eq_2)
  have u3: "concat (replicate (nat (6 - 4)) pitch_name_list) = pitch_name_list @ pitch_name_list"
    by (simp add: numeral_2_eq_2)
  have e: "end_cell False = [[]]" by (simp add: end_cell_def)
  have u4: "([[]] @ map str_int [0..11] @ map str_int [0..11] @ [[]]) ! 12 = ''11''"
    "([[]] @ map str_int [0..11] @ map str_int [0..11] @ [[]]) ! 13 = ''0''"
    "length ([[]] @ map str_int [0..11] @ map str_int [0..11] @ [[]]) = 26"
    by code_simp+
  from linear_table_rows [OF h, of False]
  have c: "midi_cells 4 6 False = [[]] @ [''48'', ''49'', ''50'', ''51'', ''52'', ''53'', ''54'', ''55'', ''56'', ''57'', ''58'', ''59'', ''60'', ''61'', ''62'', ''63'', ''64'', ''65'', ''66'', ''67'', ''68'', ''69'', ''70'', ''71''] @ [[]]"
    "pc_cells 4 6 False = [[]] @ map str_int [0..11] @ map str_int [0..11] @ [[]]"
    "name_cells 4 6 False = [[]] @ pitch_name_list @ pitch_name_list @ [[]]"
    unfolding u1 u2 u3 e by simp_all
  from h c u4 show ?thesis by (simp only:)
qed

subsection \<open>The rows of the grid\<close>











end
